theory Spec2Isabelle
  imports
    Complex_Main
    "HOL-Library.Char_ord"
    "HOL-Library.List_Lexorder"
    "HOL-Library.AList"
    "HOL-Library.Multiset"
begin

section \<open>JavaScript values\<close>

text \<open>
  The repository holds three variants of one exercise: a TypeScript file and a plain
  JavaScript file that throw on a non-array argument (suffixes \<open>_ts\<close> and \<open>_strict\<close>
  below), and \<open>index.js\<close>, which returns an empty array or \<open>false\<close> instead (suffix
  \<open>_perm\<close>).  All three classify arbitrary JavaScript values, so the model starts with
  the values.

  A number is a not-a-number, one of the two infinities, or a finite value; only
  \<open>isNaN\<close>, \<open>isFinite\<close> and \<open>===\<close> look at it, so a finite number is its
  mathematical value (\<open>+0\<close> and \<open>-0\<close> are \<open>===\<close> and are one value here).
\<close>

datatype jsnum = NaN | PosInfinity | NegInfinity | Finite rat

text \<open>
  The built-in constructors that \<open>getRealType\<close> tests with \<open>instanceof\<close>.
\<close>

datatype builtin =
  CDate | CRegExp | CSet | CMap | CError | CArrayBuffer | CDataView | CPromise

text \<open>
  Objects, functions, arrays and symbols have an identity (a number), which is what
  \<open>===\<close> compares.  An object or function carries the built-in constructors whose
  \<open>prototype\<close> lies on its prototype chain, which is what \<open>instanceof\<close> reads.
  An array carries its slots: \<open>None\<close> is a hole of a sparse array (\<open>[ , 1]\<close>,
  \<open>new Array(3)\<close>), \<open>Some v\<close> an element.  These are the ordinary values.
  A Proxy with a live handler and a patched built-in (a user-defined
  \<open>Symbol.hasInstance\<close>) run user code inside \<open>instanceof\<close> and
  \<open>Array.isArray\<close> and are not modelled; neither are cyclic arrays.  A revoked
  Proxy runs no user code and is added to the ordinary values further down.
\<close>

datatype jsval =
    VUndefined
  | VNull
  | VBoolean bool
  | VNumber jsnum
  | VBigInt int
  | VString string
  | VSymbol nat
  | VFunction nat "builtin list"
  | VObject nat "builtin list"
  | VArray nat "jsval option list"

datatype error = TypeError string

subsection \<open>The operators the source uses\<close>

fun typeof :: "jsval \<Rightarrow> string" where
  "typeof VUndefined = ''undefined''"
| "typeof VNull = ''object''"
| "typeof (VBoolean b) = ''boolean''"
| "typeof (VNumber n) = ''number''"
| "typeof (VBigInt i) = ''bigint''"
| "typeof (VString s) = ''string''"
| "typeof (VSymbol i) = ''symbol''"
| "typeof (VFunction i ps) = ''function''"
| "typeof (VObject i ps) = ''object''"
| "typeof (VArray i xs) = ''object''"

text \<open>\<open>isNaN\<close> and \<open>isFinite\<close>, which the source calls on numbers only.\<close>

fun isNaN :: "jsval \<Rightarrow> bool" where
  "isNaN (VNumber NaN) = True"
| "isNaN v = False"

fun isFinite :: "jsval \<Rightarrow> bool" where
  "isFinite (VNumber (Finite q)) = True"
| "isFinite v = False"

fun isArray :: "jsval \<Rightarrow> bool" where
  "isArray (VArray i xs) = True"
| "isArray v = False"

text \<open>
  \<open>v instanceof C\<close>: false on a primitive, a walk of the prototype chain otherwise.
  No file asks it of an array, which \<open>Array.isArray\<close> has classified before.
\<close>

fun instanceof :: "jsval \<Rightarrow> builtin \<Rightarrow> bool" where
  "instanceof (VObject i ps) c = (c \<in> set ps)"
| "instanceof (VFunction i ps) c = (c \<in> set ps)"
| "instanceof v c = False"

text \<open>Reading \<open>arr[i]\<close>: a hole and an index past the end both read \<open>undefined\<close>.\<close>

definition slot :: "jsval option \<Rightarrow> jsval" where
  "slot s = (case s of None \<Rightarrow> VUndefined | Some v \<Rightarrow> v)"

definition readIndex :: "jsval option list \<Rightarrow> nat \<Rightarrow> jsval" where
  "readIndex xs i = (if i < length xs then slot (xs ! i) else VUndefined)"

text \<open>
  \<open>for (const item of arr)\<close>: the array iterator visits every index below the length
  and reads it, so a hole is visited as \<open>undefined\<close>.
\<close>

definition items :: "jsval option list \<Rightarrow> jsval list" where
  "items xs = map slot xs"

text \<open>
  \<open>arr.map(f)\<close>: the callback runs on the elements and holes stay holes.
\<close>

definition array_map :: "(jsval \<Rightarrow> 'a) \<Rightarrow> jsval option list \<Rightarrow> 'a option list" where
  "array_map f xs = map (map_option f) xs"

section \<open>The single-value classifiers\<close>

text \<open>\<open>getType\<close> is \<open>typeof value\<close> in all three files.\<close>

definition getType :: "jsval \<Rightarrow> string" where
  "getType v = typeof v"

text \<open>The plain JavaScript file that throws.\<close>

definition getRealType_strict :: "jsval \<Rightarrow> string" where
  "getRealType_strict v =
     (let type = typeof v in
      if type = ''number'' \<and> isNaN v then ''NaN''
      else if type = ''number'' \<and> \<not> isFinite v then ''Infinity''
      else if v = VNull then ''null''
      else if isArray v then ''array''
      else if instanceof v CDate then ''date''
      else if instanceof v CRegExp then ''regexp''
      else if instanceof v CSet then ''set''
      else if instanceof v CMap then ''map''
      else if instanceof v CError then ''error''
      else if instanceof v CArrayBuffer then ''arrayBuffer''
      else if instanceof v CDataView then ''dataView''
      else if instanceof v CPromise then ''promise''
      else type)"

text \<open>The TypeScript file: the same chain, with \<open>typeof value\<close> written out twice.\<close>

definition getRealType_ts :: "jsval \<Rightarrow> string" where
  "getRealType_ts v =
     (if typeof v = ''number'' \<and> isNaN v then ''NaN''
      else if typeof v = ''number'' \<and> \<not> isFinite v then ''Infinity''
      else if v = VNull then ''null''
      else if isArray v then ''array''
      else if instanceof v CDate then ''date''
      else if instanceof v CRegExp then ''regexp''
      else if instanceof v CSet then ''set''
      else if instanceof v CMap then ''map''
      else if instanceof v CError then ''error''
      else if instanceof v CArrayBuffer then ''arrayBuffer''
      else if instanceof v CDataView then ''dataView''
      else if instanceof v CPromise then ''promise''
      else typeof v)"

text \<open>
  \<open>index.js\<close>: the reference shapes are tested only under \<open>type === 'object'\<close>,
  and the chain stops after \<open>Set\<close>.
\<close>

definition getRealType_perm :: "jsval \<Rightarrow> string" where
  "getRealType_perm v =
     (let type = getType v in
      if type = ''number'' \<and> isNaN v then ''NaN''
      else if type = ''number'' \<and> \<not> isFinite v then ''Infinity''
      else if type = ''object'' then
        (if v = VNull then ''null''
         else if isArray v then ''array''
         else if instanceof v CDate then ''date''
         else if instanceof v CRegExp then ''regexp''
         else if instanceof v CSet then ''set''
         else type)
      else type)"

section \<open>The sequence classifiers\<close>

definition notAnArray :: error where
  "notAnArray = TypeError ''Passed parameter is not an array''"

text \<open>The slots of an array argument, read only after \<open>Array.isArray\<close> has passed.\<close>

fun elements :: "jsval \<Rightarrow> jsval option list" where
  "elements (VArray i xs) = xs"
| "elements v = []"

subsection \<open>Loops, the same text in the three files\<close>

text \<open>
  \<open>for (let i = 1; i < arr.length; i++) if (typeof arr[i] !== type) return false;\<close>
  followed by \<open>return true\<close>.
\<close>

function sameTypeLoop :: "jsval option list \<Rightarrow> string \<Rightarrow> nat \<Rightarrow> bool" where
  "sameTypeLoop xs type i =
     (if i < length xs then
        (let typeTocompare = typeof (readIndex xs i) in
         if typeTocompare \<noteq> type then False else sameTypeLoop xs type (Suc i))
      else True)"
  by pat_completeness auto
termination
  by (relation "measure (\<lambda>(xs, type, i). length xs - i)") auto

declare sameTypeLoop.simps [simp del]

text \<open>
  The loop of \<open>everyItemHasAUniqueRealType\<close> over a \<open>Set\<close> of labels; the first
  argument is the file's own \<open>getRealType\<close>.
\<close>

fun uniqueLoop :: "(jsval \<Rightarrow> string) \<Rightarrow> string set \<Rightarrow> jsval list \<Rightarrow> bool" where
  "uniqueLoop grt types [] = True"
| "uniqueLoop grt types (item # rest) =
     (let type = grt item in
      if type \<in> types then False else uniqueLoop grt (insert type types) rest)"

text \<open>
  The loop of \<open>countRealTypes\<close> over a \<open>Map\<close> from labels to counts.  A JavaScript
  \<open>Map\<close> keeps its keys in insertion order and \<open>set\<close> on a present key keeps the
  key's place: an association list with \<open>AList.update\<close>.
\<close>

fun countLoop :: "(jsval \<Rightarrow> string) \<Rightarrow> (string \<times> nat) list \<Rightarrow> jsval list \<Rightarrow> (string \<times> nat) list" where
  "countLoop grt result [] = result"
| "countLoop grt result (item # rest) =
     (let type = grt item in
      case map_of result type of
        Some value \<Rightarrow> countLoop grt (AList.update type (value + 1) result) rest
      | None \<Rightarrow> countLoop grt (AList.update type 1 result) rest)"

subsection \<open>Sorting\<close>

text \<open>
  \<open>Array.prototype.sort\<close> with a consistent comparator returns the stable sorted
  permutation; insertion by the comparator computes it.
\<close>

fun insort_cmp :: "('a \<Rightarrow> 'a \<Rightarrow> int) \<Rightarrow> 'a \<Rightarrow> 'a list \<Rightarrow> 'a list" where
  "insort_cmp cmp x [] = [x]"
| "insort_cmp cmp x (y # ys) =
     (if cmp x y \<le> 0 then x # y # ys else y # insort_cmp cmp x ys)"

definition sort_cmp :: "('a \<Rightarrow> 'a \<Rightarrow> int) \<Rightarrow> 'a list \<Rightarrow> 'a list" where
  "sort_cmp cmp xs = foldr (insort_cmp cmp) xs []"

text \<open>The comparator of the TypeScript and the throwing JavaScript file.\<close>

definition compareFn :: "string \<times> nat \<Rightarrow> string \<times> nat \<Rightarrow> int" where
  "compareFn a b = (if fst a > fst b then 1 else if fst a < fst b then - 1 else 0)"

text \<open>
  \<open>index.js\<close> calls \<open>sort()\<close> with no comparator, which compares the elements as
  strings: the entry \<open>['boolean', 3]\<close> as \<open>"boolean,3"\<close>.
\<close>

definition digit :: "nat \<Rightarrow> char" where
  "digit d = char_of (48 + d)"

function decimal :: "nat \<Rightarrow> string" where
  "decimal n = (if n < 10 then [digit n] else decimal (n div 10) @ [digit (n mod 10)])"
  by pat_completeness auto
termination
  by (relation "measure id") auto

declare decimal.simps [simp del]

definition entryToString :: "string \<times> nat \<Rightarrow> string" where
  "entryToString e = fst e @ '','' @ decimal (snd e)"

definition defaultCompare :: "string \<times> nat \<Rightarrow> string \<times> nat \<Rightarrow> int" where
  "defaultCompare a b =
     (if entryToString a < entryToString b then - 1
      else if entryToString b < entryToString a then 1 else 0)"

subsection \<open>The JavaScript file that throws\<close>

definition getTypesOfItems_strict :: "jsval \<Rightarrow> error + string option list" where
  "getTypesOfItems_strict arr =
     (if \<not> isArray arr then Inl notAnArray
      else Inr (array_map getType (elements arr)))"

definition allItemsHaveTheSameType_strict :: "jsval \<Rightarrow> error + bool" where
  "allItemsHaveTheSameType_strict arr =
     (if \<not> isArray arr then Inl notAnArray
      else if length (elements arr) \<le> 1 then Inr True
      else Inr (sameTypeLoop (elements arr) (typeof (readIndex (elements arr) 0)) 1))"

definition getRealTypesOfItems_strict :: "jsval \<Rightarrow> error + string option list" where
  "getRealTypesOfItems_strict arr =
     (if \<not> isArray arr then Inl notAnArray
      else Inr (array_map getRealType_strict (elements arr)))"

definition everyItemHasAUniqueRealType_strict :: "jsval \<Rightarrow> error + bool" where
  "everyItemHasAUniqueRealType_strict arr =
     (if \<not> isArray arr then Inl notAnArray
      else Inr (uniqueLoop getRealType_strict {} (items (elements arr))))"

definition countRealTypes_strict :: "jsval \<Rightarrow> error + (string \<times> nat) list" where
  "countRealTypes_strict arr =
     (if \<not> isArray arr then Inl notAnArray
      else Inr (sort_cmp compareFn (countLoop getRealType_strict [] (items (elements arr)))))"

subsection \<open>The TypeScript file\<close>

definition getTypesOfItems_ts :: "jsval \<Rightarrow> error + string option list" where
  "getTypesOfItems_ts arr =
     (if \<not> isArray arr then Inl notAnArray
      else Inr (array_map getType (elements arr)))"

definition allItemsHaveTheSameType_ts :: "jsval \<Rightarrow> error + bool" where
  "allItemsHaveTheSameType_ts arr =
     (if \<not> isArray arr then Inl notAnArray
      else if length (elements arr) \<le> 1 then Inr True
      else Inr (sameTypeLoop (elements arr) (typeof (readIndex (elements arr) 0)) 1))"

definition getRealTypesOfItems_ts :: "jsval \<Rightarrow> error + string option list" where
  "getRealTypesOfItems_ts arr =
     (if \<not> isArray arr then Inl notAnArray
      else Inr (array_map getRealType_ts (elements arr)))"

definition everyItemHasAUniqueRealType_ts :: "jsval \<Rightarrow> error + bool" where
  "everyItemHasAUniqueRealType_ts arr =
     (if \<not> isArray arr then Inl notAnArray
      else Inr (uniqueLoop getRealType_ts {} (items (elements arr))))"

definition countRealTypes_ts :: "jsval \<Rightarrow> error + (string \<times> nat) list" where
  "countRealTypes_ts arr =
     (if \<not> isArray arr then Inl notAnArray
      else Inr (sort_cmp compareFn (countLoop getRealType_ts [] (items (elements arr)))))"

subsection \<open>\<open>index.js\<close>: nothing throws\<close>

definition getTypesOfItems_perm :: "jsval \<Rightarrow> string option list" where
  "getTypesOfItems_perm arr =
     (if \<not> isArray arr then [] else array_map typeof (elements arr))"

definition allItemsHaveTheSameType_perm :: "jsval \<Rightarrow> bool" where
  "allItemsHaveTheSameType_perm arr =
     (if \<not> isArray arr then False
      else if length (elements arr) = 0 then True
      else sameTypeLoop (elements arr) (typeof (readIndex (elements arr) 0)) 1)"

definition getRealTypesOfItems_perm :: "jsval \<Rightarrow> string option list" where
  "getRealTypesOfItems_perm arr =
     (if \<not> isArray arr then [] else array_map getRealType_perm (elements arr))"

definition everyItemHasAUniqueRealType_perm :: "jsval \<Rightarrow> bool" where
  "everyItemHasAUniqueRealType_perm arr =
     (if \<not> isArray arr then False
      else uniqueLoop getRealType_perm {} (items (elements arr)))"

definition countRealTypes_perm :: "jsval \<Rightarrow> (string \<times> nat) list" where
  "countRealTypes_perm arr =
     (if \<not> isArray arr then []
      else sort_cmp defaultCompare (countLoop getRealType_perm [] (items (elements arr))))"

section \<open>The test harness's equality\<close>

text \<open>
  \<open>a === b\<close>: primitives by value, with \<open>NaN\<close> unequal to itself; symbols,
  functions, objects and arrays by identity.
\<close>

definition numEq :: "jsnum \<Rightarrow> jsnum \<Rightarrow> bool" where
  "numEq x y = (x \<noteq> NaN \<and> y \<noteq> NaN \<and> x = y)"

definition strictEq :: "jsval \<Rightarrow> jsval \<Rightarrow> bool" where
  "strictEq a b =
     (case a of
        VUndefined \<Rightarrow> (case b of VUndefined \<Rightarrow> True | _ \<Rightarrow> False)
      | VNull \<Rightarrow> (case b of VNull \<Rightarrow> True | _ \<Rightarrow> False)
      | VBoolean x \<Rightarrow> (case b of VBoolean y \<Rightarrow> x = y | _ \<Rightarrow> False)
      | VNumber x \<Rightarrow> (case b of VNumber y \<Rightarrow> numEq x y | _ \<Rightarrow> False)
      | VBigInt x \<Rightarrow> (case b of VBigInt y \<Rightarrow> x = y | _ \<Rightarrow> False)
      | VString x \<Rightarrow> (case b of VString y \<Rightarrow> x = y | _ \<Rightarrow> False)
      | VSymbol i \<Rightarrow> (case b of VSymbol j \<Rightarrow> i = j | _ \<Rightarrow> False)
      | VFunction i ps \<Rightarrow> (case b of VFunction j qs \<Rightarrow> i = j | _ \<Rightarrow> False)
      | VObject i ps \<Rightarrow> (case b of VObject j qs \<Rightarrow> i = j | _ \<Rightarrow> False)
      | VArray i xs \<Rightarrow> (case b of VArray j ys \<Rightarrow> i = j | _ \<Rightarrow> False))"

text \<open>
  \<open>areEqual\<close> of the TypeScript and the throwing JavaScript file.
  \<open>a.every(f)\<close> calls \<open>f(value, i)\<close> on the indices of \<open>a\<close> that hold an
  element and skips the holes; \<open>b[i]\<close> reads a hole as \<open>undefined\<close>.
\<close>

fun areEqual :: "jsval \<Rightarrow> jsval \<Rightarrow> bool"
  and every_areEqual :: "jsval option list \<Rightarrow> jsval option list \<Rightarrow> bool" where
  "areEqual a b =
     (if strictEq a b then True
      else case a of
        VArray i xs \<Rightarrow>
          (if isArray b \<and> length xs = length (elements b) then every_areEqual xs (elements b)
           else False)
      | _ \<Rightarrow> False)"
| "every_areEqual [] bs = True"
| "every_areEqual (x # xs) bs =
     ((case x of None \<Rightarrow> True | Some val \<Rightarrow> areEqual val (readIndex bs 0))
      \<and> every_areEqual xs (drop 1 bs))"

text \<open>
  \<open>compareArrays\<close> and \<open>areEqual\<close> of \<open>index.js\<close>: an indexed loop that reads
  \<open>a[i]\<close> and \<open>b[i]\<close>.
\<close>

fun compareArrays :: "jsval option list \<Rightarrow> jsval option list \<Rightarrow> bool"
  and compareLoop :: "jsval option list \<Rightarrow> jsval option list \<Rightarrow> bool" where
  "compareArrays a b = (if length a \<noteq> length b then False else compareLoop a b)"
| "compareLoop [] b = True"
| "compareLoop (x # xs) b =
     ((case x of
         Some (VArray i as) \<Rightarrow>
           (if isArray (readIndex b 0) then compareArrays as (elements (readIndex b 0))
            else strictEq (VArray i as) (readIndex b 0))
       | _ \<Rightarrow> strictEq (slot x) (readIndex b 0))
      \<and> compareLoop xs (drop 1 b))"

definition areEqual_perm :: "jsval \<Rightarrow> jsval \<Rightarrow> bool" where
  "areEqual_perm a b =
     (if isArray a \<and> isArray b then compareArrays (elements a) (elements b)
      else strictEq a b)"

section \<open>The label vocabularies\<close>



text \<open>
  The refined-type classifier as the specification words it: twelve steps, the first
  that matches wins.
\<close>

definition refinedClassifier_spec :: "jsval \<Rightarrow> string" where
  "refinedClassifier_spec v =
     (if getType v = ''number'' \<and> isNaN v then ''NaN''
      else if getType v = ''number'' \<and> \<not> isFinite v then ''Infinity''
      else if v = VNull then ''null''
      else if isArray v then ''array''
      else if instanceof v CDate then ''date''
      else if instanceof v CRegExp then ''regexp''
      else if instanceof v CSet then ''set''
      else if instanceof v CMap then ''map''
      else if instanceof v CError then ''error''
      else if instanceof v CArrayBuffer then ''arrayBuffer''
      else if instanceof v CDataView then ''dataView''
      else if instanceof v CPromise then ''promise''
      else getType v)"

section \<open>The frequency count as the specification words it\<close>

text \<open>
  A list of (label, count) pairs is the frequency count of a list of labels when it
  has one pair for each distinct label of the list and no other, each count is the
  number of occurrences of its label, the pairs ascend by label in the order of
  strings, and the counts add up to the length of the list.
\<close>

definition frequencyCount_spec :: "string list \<Rightarrow> (string \<times> nat) list \<Rightarrow> bool" where
  "frequencyCount_spec labels ps \<longleftrightarrow>
     distinct (map fst ps) \<and>
     set (map fst ps) = set labels \<and>
     (\<forall>p\<in>set ps. snd p = count_list labels (fst p)) \<and>
     sorted (map fst ps) \<and>
     sum_list (map snd ps) = length labels"

text \<open>
  Every character of an alphabetic string comes after the comma, the separator that
  \<open>index.js\<close>'s sort puts between a label and its count.
\<close>

definition alphabetic :: "string \<Rightarrow> bool" where
  "alphabetic s \<longleftrightarrow> (\<forall>c\<in>set s. CHR '','' < c)"

text \<open>A dense value has no hole at any depth.\<close>

fun dense :: "jsval \<Rightarrow> bool"
  and dense_slots :: "jsval option list \<Rightarrow> bool" where
  "dense (VArray i xs) = dense_slots xs"
| "dense VUndefined = True"
| "dense VNull = True"
| "dense (VBoolean b) = True"
| "dense (VNumber n) = True"
| "dense (VBigInt k) = True"
| "dense (VString s) = True"
| "dense (VSymbol k) = True"
| "dense (VFunction k ps) = True"
| "dense (VObject k ps) = True"
| "dense_slots [] = True"
| "dense_slots (None # xs) = False"
| "dense_slots (Some v # xs) = (dense v \<and> dense_slots xs)"

section \<open>The single-value classifiers on a revoked Proxy\<close>













section \<open>Properties of the single-value classifiers\<close>

lemma getRealType_ts_strict: "getRealType_ts v = getRealType_strict v"
  by (simp add: getRealType_ts_def getRealType_strict_def Let_def)

lemma getRealType_ts_strict_fun: "getRealType_ts = getRealType_strict"
  by (rule ext) (rule getRealType_ts_strict)

lemma typeof_number_cases: "typeof v = ''number'' \<Longrightarrow> \<exists>n. v = VNumber n"
  by (cases v) simp_all




lemma getRealType_strict_spec: "getRealType_strict v = refinedClassifier_spec v"
  by (simp add: getRealType_strict_def refinedClassifier_spec_def getType_def Let_def)

lemma getRealType_perm_spec:
  "getRealType_perm v =
     (if refinedClassifier_spec v \<in> set [''map'', ''error'', ''arrayBuffer'', ''dataView'', ''promise'']
         \<or> getType v = ''function''
      then getType v else refinedClassifier_spec v)"
  by (cases v)
    (auto simp add: getRealType_perm_def refinedClassifier_spec_def getType_def Let_def)

text \<open>
  Claim C5.  A value whose coarse label is \<open>number\<close> is classified \<open>NaN\<close> when it is
  the not-a-number, else \<open>Infinity\<close> when it is not finite, else \<open>number\<close>, in each
  of the three files.  The two numeric tests are the first of the chain, so no later
  test of a reference shape is reached for a not-a-number or an infinity.
\<close>

theorem getRealType_numeric_refinement:
  "getType v = ''number'' \<Longrightarrow>
     getRealType_strict v
       = (if isNaN v then ''NaN'' else if \<not> isFinite v then ''Infinity'' else ''number'') \<and>
     getRealType_ts v
       = (if isNaN v then ''NaN'' else if \<not> isFinite v then ''Infinity'' else ''number'') \<and>
     getRealType_perm v
       = (if isNaN v then ''NaN'' else if \<not> isFinite v then ''Infinity'' else ''number'')"
proof -
  assume "getType v = ''number''"
  then obtain n where v: "v = VNumber n"
    using typeof_number_cases by (auto simp: getType_def)
  show ?thesis
    unfolding v
    by (cases n)
      (simp_all add: getRealType_strict_def getRealType_ts_def getRealType_perm_def getType_def)
qed

theorem getRealType_numeric_refinement_witness:
  "getType (VNumber NegInfinity) = ''number'' \<and>
   getRealType_strict (VNumber NegInfinity) = ''Infinity'' \<and>
   getRealType_ts (VNumber NegInfinity) = ''Infinity'' \<and>
   getRealType_perm (VNumber NegInfinity) = ''Infinity''"
  using getRealType_numeric_refinement [of "VNumber NegInfinity"]
  by (simp add: getType_def)










text \<open>
  Claim C2, as stated: every file's \<open>getRealType\<close> maps a \<open>Map\<close> instance to
  \<open>map\<close>.  \<open>index.js\<close> does not: its chain ends after \<open>Set\<close>, and
  \<open>new Map()\<close> keeps the coarse label \<open>object\<close>.
\<close>

theorem getRealType_chain_counterexample:
  "instanceof (VObject 6 [CMap]) CMap \<and>
   refinedClassifier_spec (VObject 6 [CMap]) = ''map'' \<and>
   getRealType_perm (VObject 6 [CMap]) = ''object''"
  by (simp add: getRealType_perm_def refinedClassifier_spec_def getType_def)

text \<open>
  Claim C2, amended.  The TypeScript file and the throwing JavaScript file follow the
  twelve steps of the chain.  \<open>index.js\<close> follows the chain except that it has no
  step for \<open>Map\<close>, \<open>Error\<close>, \<open>ArrayBuffer\<close>, \<open>DataView\<close> and \<open>Promise\<close>
  and tests the reference shapes only on values whose coarse label is \<open>object\<close>:
  a value that the chain maps to one of those five labels, and every callable, keeps
  its coarse label; every other value gets the chain's label.
\<close>

theorem getRealType_chain:
  "getRealType_strict v = refinedClassifier_spec v \<and>
   getRealType_ts v = refinedClassifier_spec v \<and>
   getRealType_perm v =
     (if refinedClassifier_spec v \<in> set [''map'', ''error'', ''arrayBuffer'', ''dataView'', ''promise'']
         \<or> getType v = ''function''
      then getType v else refinedClassifier_spec v)"
  using getRealType_strict_spec [of v] getRealType_perm_spec [of v]
  by (simp only: getRealType_ts_strict simp_thms)

theorem getRealType_chain_witness:
  "getRealType_strict (VObject 3 [CDate, CRegExp]) = ''date'' \<and>
   getRealType_ts (VObject 3 [CDate, CRegExp]) = ''date'' \<and>
   getRealType_perm (VObject 3 [CDate, CRegExp]) = ''date'' \<and>
   refinedClassifier_spec (VObject 3 [CDate, CRegExp]) = ''date''"
  using getRealType_chain [of "VObject 3 [CDate, CRegExp]"]
  by (simp add: refinedClassifier_spec_def getType_def)

section \<open>Properties of the sequence classifiers\<close>

subsection \<open>The loop of the uniformity check\<close>

lemma sameTypeLoop_iff:
  "sameTypeLoop xs t i = (\<forall>j. i \<le> j \<and> j < length xs \<longrightarrow> typeof (readIndex xs j) = t)"
proof (induction xs t i rule: sameTypeLoop.induct)
  case (1 xs type i)
  show ?case
  proof (cases "i < length xs")
    case False
    then show ?thesis by (subst sameTypeLoop.simps) auto
  next
    case True
    show ?thesis
    proof (cases "typeof (readIndex xs i) = type")
      case False
      with True show ?thesis by (subst sameTypeLoop.simps) auto
    next
      case eq: True
      have "sameTypeLoop xs type i = sameTypeLoop xs type (Suc i)"
        using True eq by (subst sameTypeLoop.simps) simp
      also have "\<dots> = (\<forall>j. Suc i \<le> j \<and> j < length xs \<longrightarrow> typeof (readIndex xs j) = type)"
        using 1 True eq by simp
      also have "\<dots> = (\<forall>j. i \<le> j \<and> j < length xs \<longrightarrow> typeof (readIndex xs j) = type)"
      proof
        assume h: "\<forall>j. Suc i \<le> j \<and> j < length xs \<longrightarrow> typeof (readIndex xs j) = type"
        show "\<forall>j. i \<le> j \<and> j < length xs \<longrightarrow> typeof (readIndex xs j) = type"
        proof (intro allI impI)
          fix j assume j: "i \<le> j \<and> j < length xs"
          show "typeof (readIndex xs j) = type"
          proof (cases "j = i")
            case True
            with eq show ?thesis by simp
          next
            case False
            with j have "Suc i \<le> j" by simp
            with h j show ?thesis by blast
          qed
        qed
      next
        assume "\<forall>j. i \<le> j \<and> j < length xs \<longrightarrow> typeof (readIndex xs j) = type"
        then show "\<forall>j. Suc i \<le> j \<and> j < length xs \<longrightarrow> typeof (readIndex xs j) = type"
          by (simp add: Suc_le_eq)
      qed
      finally show ?thesis .
    qed
  qed
qed

lemma sameTypeLoop_first:
  "sameTypeLoop xs (typeof (readIndex xs 0)) 1
     = (\<forall>i<length xs. getType (readIndex xs i) = getType (readIndex xs 0))"
proof -
  let ?P = "\<lambda>j. typeof (readIndex xs j) = typeof (readIndex xs 0)"
  have "(\<forall>j. 1 \<le> j \<and> j < length xs \<longrightarrow> ?P j) = (\<forall>i<length xs. ?P i)"
  proof
    assume h: "\<forall>j. 1 \<le> j \<and> j < length xs \<longrightarrow> ?P j"
    show "\<forall>i<length xs. ?P i"
    proof (intro allI impI)
      fix i assume "i < length xs"
      show "?P i"
      proof (cases "i = 0")
        case True
        then show ?thesis by simp
      next
        case False
        then have "1 \<le> i" by simp
        with h \<open>i < length xs\<close> show ?thesis by blast
      qed
    qed
  next
    assume "\<forall>i<length xs. ?P i"
    then show "\<forall>j. 1 \<le> j \<and> j < length xs \<longrightarrow> ?P j" by blast
  qed
  then show ?thesis by (simp only: sameTypeLoop_iff getType_def)
qed

lemma short_uniform:
  "length xs \<le> 1 \<Longrightarrow> (\<forall>i<length xs. getType (readIndex xs i) = getType (readIndex xs 0))"
proof (intro allI impI)
  fix i assume "length xs \<le> 1" "i < length xs"
  then have "i = 0" by simp
  then show "getType (readIndex xs i) = getType (readIndex xs 0)" by simp
qed

text \<open>
  Claim C4.  On an array, \<open>allItemsHaveTheSameType\<close> returns true if the array has
  0 or 1 elements or if the coarse label of every element equals that of the first,
  and false otherwise, in each of the three files.  A hole of a sparse array is read
  as \<open>undefined\<close>.
\<close>

theorem allItemsHaveTheSameType_uniform:
  "allItemsHaveTheSameType_strict (VArray a xs)
     = Inr (length xs \<le> 1 \<or> (\<forall>i<length xs. getType (readIndex xs i) = getType (readIndex xs 0))) \<and>
   allItemsHaveTheSameType_ts (VArray a xs)
     = Inr (length xs \<le> 1 \<or> (\<forall>i<length xs. getType (readIndex xs i) = getType (readIndex xs 0))) \<and>
   allItemsHaveTheSameType_perm (VArray a xs)
     = (length xs \<le> 1 \<or> (\<forall>i<length xs. getType (readIndex xs i) = getType (readIndex xs 0)))"
proof -
  let ?U = "\<forall>i<length xs. getType (readIndex xs i) = getType (readIndex xs 0)"
  have loop: "sameTypeLoop xs (typeof (readIndex xs 0)) 1 = ?U"
    by (rule sameTypeLoop_first)
  have short: "length xs \<le> 1 \<Longrightarrow> ?U"
    by (rule short_uniform)
  have s: "allItemsHaveTheSameType_strict (VArray a xs) = Inr (length xs \<le> 1 \<or> ?U)"
    using loop by (simp add: allItemsHaveTheSameType_strict_def)
  have t: "allItemsHaveTheSameType_ts (VArray a xs) = Inr (length xs \<le> 1 \<or> ?U)"
    using loop by (simp add: allItemsHaveTheSameType_ts_def)
  have p: "allItemsHaveTheSameType_perm (VArray a xs) = (length xs \<le> 1 \<or> ?U)"
    using loop short by (auto simp add: allItemsHaveTheSameType_perm_def)
  from s t p show ?thesis by simp
qed

theorem allItemsHaveTheSameType_uniform_witness:
  "allItemsHaveTheSameType_strict
     (VArray 0 [Some (VString ''11''), Some (VObject 1 []), Some (VString ''13'')]) = Inr False \<and>
   allItemsHaveTheSameType_ts
     (VArray 0 [Some (VString ''11''), Some (VObject 1 []), Some (VString ''13'')]) = Inr False \<and>
   allItemsHaveTheSameType_perm
     (VArray 0 [Some (VString ''11''), Some (VObject 1 []), Some (VString ''13'')]) = False"
proof -
  let ?xs = "[Some (VString ''11''), Some (VObject 1 []), Some (VString ''13'')]"
  have d: "getType (readIndex ?xs 1) \<noteq> getType (readIndex ?xs 0)"
    by (simp add: readIndex_def slot_def getType_def)
  have "\<not> (\<forall>i<length ?xs. getType (readIndex ?xs i) = getType (readIndex ?xs 0))"
  proof
    assume "\<forall>i<length ?xs. getType (readIndex ?xs i) = getType (readIndex ?xs 0)"
    then have "1 < length ?xs \<longrightarrow> getType (readIndex ?xs 1) = getType (readIndex ?xs 0)"
      by (rule spec)
    with d show False by simp
  qed
  then have "\<not> (length ?xs \<le> 1 \<or> (\<forall>i<length ?xs. getType (readIndex ?xs i) = getType (readIndex ?xs 0)))"
    by simp
  then show ?thesis
    using allItemsHaveTheSameType_uniform [of 0 ?xs] by simp
qed

subsection \<open>The loop of the uniqueness check\<close>

lemma uniqueLoop_iff:
  "uniqueLoop grt S its = (distinct (map grt its) \<and> set (map grt its) \<inter> S = {})"
  by (induction its arbitrary: S) (auto simp: Let_def)

text \<open>
  Claim C3.  On an array, \<open>everyItemHasAUniqueRealType\<close> returns true if and only
  if the refined labels of the elements, in order, have no duplicate; on the empty
  array it returns true.  This holds in each of the three files, with the file's own
  \<open>getRealType\<close>.
\<close>

theorem everyItemHasAUniqueRealType_distinct:
  "everyItemHasAUniqueRealType_strict (VArray a xs)
     = Inr (distinct (map getRealType_strict (items xs))) \<and>
   everyItemHasAUniqueRealType_ts (VArray a xs)
     = Inr (distinct (map getRealType_ts (items xs))) \<and>
   everyItemHasAUniqueRealType_perm (VArray a xs)
     = distinct (map getRealType_perm (items xs)) \<and>
   everyItemHasAUniqueRealType_strict (VArray a []) = Inr True \<and>
   everyItemHasAUniqueRealType_ts (VArray a []) = Inr True \<and>
   everyItemHasAUniqueRealType_perm (VArray a []) = True"
  by (simp add: everyItemHasAUniqueRealType_strict_def everyItemHasAUniqueRealType_ts_def
      everyItemHasAUniqueRealType_perm_def uniqueLoop_iff items_def)

theorem everyItemHasAUniqueRealType_distinct_witness:
  "everyItemHasAUniqueRealType_strict
     (VArray 0 [Some (VBoolean True), Some (VNumber (Finite 123)), Some (VBoolean False)]) = Inr False \<and>
   everyItemHasAUniqueRealType_perm
     (VArray 0 [Some (VBoolean True), Some (VNumber (Finite 123)), Some (VBoolean False)]) = False"
  using everyItemHasAUniqueRealType_distinct
    [of 0 "[Some (VBoolean True), Some (VNumber (Finite 123)), Some (VBoolean False)]"]
  by (simp add: items_def slot_def getRealType_strict_def getRealType_perm_def getType_def)

subsection \<open>Arguments that are not arrays\<close>

text \<open>
  Claim C6.  Each file applies one policy to every sequence classifier.  On an
  argument that is not an array, the five functions of the TypeScript file and of the
  throwing JavaScript file all throw the \<open>TypeError\<close>
  \<open>Passed parameter is not an array\<close>; the five functions of \<open>index.js\<close> return
  the empty array (the two listings and the count) or \<open>false\<close> (the uniformity and
  the uniqueness check).
\<close>

theorem nonarray_policy:
  "\<not> isArray v \<Longrightarrow>
     getTypesOfItems_strict v = Inl (TypeError ''Passed parameter is not an array'') \<and>
     allItemsHaveTheSameType_strict v = Inl (TypeError ''Passed parameter is not an array'') \<and>
     getRealTypesOfItems_strict v = Inl (TypeError ''Passed parameter is not an array'') \<and>
     everyItemHasAUniqueRealType_strict v = Inl (TypeError ''Passed parameter is not an array'') \<and>
     countRealTypes_strict v = Inl (TypeError ''Passed parameter is not an array'') \<and>
     getTypesOfItems_ts v = Inl (TypeError ''Passed parameter is not an array'') \<and>
     allItemsHaveTheSameType_ts v = Inl (TypeError ''Passed parameter is not an array'') \<and>
     getRealTypesOfItems_ts v = Inl (TypeError ''Passed parameter is not an array'') \<and>
     everyItemHasAUniqueRealType_ts v = Inl (TypeError ''Passed parameter is not an array'') \<and>
     countRealTypes_ts v = Inl (TypeError ''Passed parameter is not an array'') \<and>
     getTypesOfItems_perm v = [] \<and>
     getRealTypesOfItems_perm v = [] \<and>
     countRealTypes_perm v = [] \<and>
     allItemsHaveTheSameType_perm v = False \<and>
     everyItemHasAUniqueRealType_perm v = False"
  by (simp add: getTypesOfItems_strict_def allItemsHaveTheSameType_strict_def
      getRealTypesOfItems_strict_def everyItemHasAUniqueRealType_strict_def
      countRealTypes_strict_def getTypesOfItems_ts_def allItemsHaveTheSameType_ts_def
      getRealTypesOfItems_ts_def everyItemHasAUniqueRealType_ts_def countRealTypes_ts_def
      getTypesOfItems_perm_def getRealTypesOfItems_perm_def countRealTypes_perm_def
      allItemsHaveTheSameType_perm_def everyItemHasAUniqueRealType_perm_def notAnArray_def)

theorem nonarray_policy_witness:
  "\<not> isArray (VString ''abc'') \<and>
   getTypesOfItems_strict (VString ''abc'') = Inl (TypeError ''Passed parameter is not an array'') \<and>
   countRealTypes_ts (VString ''abc'') = Inl (TypeError ''Passed parameter is not an array'') \<and>
   getTypesOfItems_perm (VString ''abc'') = [] \<and>
   everyItemHasAUniqueRealType_perm (VString ''abc'') = False"
  using nonarray_policy [of "VString ''abc''"] by simp

subsection \<open>The TypeScript file and the throwing JavaScript file\<close>

text \<open>
  Claim C9.  The TypeScript file and the throwing JavaScript file compute the same
  functions: on every argument, \<open>getRealType\<close>, \<open>getTypesOfItems\<close>,
  \<open>allItemsHaveTheSameType\<close>, \<open>getRealTypesOfItems\<close>,
  \<open>everyItemHasAUniqueRealType\<close> and \<open>countRealTypes\<close> return the same result
  or throw the same error.
\<close>

theorem ts_equals_strict:
  "getRealType_ts v = getRealType_strict v \<and>
   getTypesOfItems_ts v = getTypesOfItems_strict v \<and>
   allItemsHaveTheSameType_ts v = allItemsHaveTheSameType_strict v \<and>
   getRealTypesOfItems_ts v = getRealTypesOfItems_strict v \<and>
   everyItemHasAUniqueRealType_ts v = everyItemHasAUniqueRealType_strict v \<and>
   countRealTypes_ts v = countRealTypes_strict v"
  by (simp add: getRealType_ts_strict_fun getTypesOfItems_ts_def getTypesOfItems_strict_def
      allItemsHaveTheSameType_ts_def allItemsHaveTheSameType_strict_def
      getRealTypesOfItems_ts_def getRealTypesOfItems_strict_def
      everyItemHasAUniqueRealType_ts_def everyItemHasAUniqueRealType_strict_def
      countRealTypes_ts_def countRealTypes_strict_def)

theorem ts_equals_strict_witness:
  "countRealTypes_ts (VArray 0 [Some (VBoolean True), None, Some VNull, Some (VBoolean False)])
     = Inr [(''boolean'', 2), (''null'', 1), (''undefined'', 1)] \<and>
   countRealTypes_strict (VArray 0 [Some (VBoolean True), None, Some VNull, Some (VBoolean False)])
     = Inr [(''boolean'', 2), (''null'', 1), (''undefined'', 1)] \<and>
   everyItemHasAUniqueRealType_ts VNull = Inl (TypeError ''Passed parameter is not an array'') \<and>
   everyItemHasAUniqueRealType_strict VNull = Inl (TypeError ''Passed parameter is not an array'')"
  using ts_equals_strict [of "VArray 0 [Some (VBoolean True), None, Some VNull, Some (VBoolean False)]"]
    ts_equals_strict [of VNull]
  by (simp add: countRealTypes_strict_def everyItemHasAUniqueRealType_strict_def notAnArray_def
      items_def slot_def getRealType_strict_def sort_cmp_def compareFn_def)

subsection \<open>The loop and the sort of the frequency count\<close>

lemma insort_cmp_compareFn: "insort_cmp compareFn x ys = insort_key fst x ys"
  by (induction ys) (auto simp: compareFn_def)

lemma sort_cmp_compareFn: "sort_cmp compareFn xs = sort_key fst xs"
  by (induction xs) (simp_all add: sort_cmp_def sort_key_def insort_cmp_compareFn)

lemma insort_cmp_defaultCompare: "insort_cmp defaultCompare x ys = insort_key entryToString x ys"
  by (induction ys) (auto simp: defaultCompare_def)

lemma sort_cmp_defaultCompare: "sort_cmp defaultCompare xs = sort_key entryToString xs"
  by (induction xs) (simp_all add: sort_cmp_def sort_key_def insort_cmp_defaultCompare)

lemma sum_update_None:
  "map_of al k = None \<Longrightarrow>
     sum_list (map snd (AList.update k v al)) = sum_list (map snd al) + (v::nat)"
  by (induction al) (auto split: if_splits)

lemma sum_update_Some:
  "map_of al k = Some w \<Longrightarrow>
     sum_list (map snd (AList.update k (Suc w) al)) = Suc (sum_list (map snd al))"
  by (induction al) (auto split: if_splits)

lemma countLoop_sum:
  "sum_list (map snd (countLoop grt acc its)) = sum_list (map snd acc) + length its"
proof (induction its arbitrary: acc)
  case Nil
  show ?case by simp
next
  case (Cons item rest)
  show ?case
  proof (cases "map_of acc (grt item)")
    case None
    then show ?thesis by (simp add: Cons.IH sum_update_None)
  next
    case (Some w)
    then show ?thesis by (simp add: Cons.IH sum_update_Some)
  qed
qed

lemma countLoop_distinct:
  "distinct (map fst acc) \<Longrightarrow> distinct (map fst (countLoop grt acc its))"
  by (induction its arbitrary: acc) (auto simp: Let_def distinct_update split: option.splits)

lemma countLoop_map_of:
  "map_of (countLoop grt acc its) l =
     (if l \<in> set (map grt its)
      then Some (count_list (map grt its) l + (case map_of acc l of None \<Rightarrow> 0 | Some c \<Rightarrow> c))
      else map_of acc l)"
proof (induction its arbitrary: acc)
  case Nil
  show ?case by simp
next
  case (Cons item rest)
  show ?case
  proof (cases "map_of acc (grt item)")
    case None
    then show ?thesis by (auto simp add: Cons.IH update_conv')
  next
    case (Some w)
    then show ?thesis by (auto simp add: Cons.IH update_conv')
  qed
qed

lemma distinct_count_one: "distinct L \<longleftrightarrow> (\<forall>l\<in>set L. count_list L l = 1)"
proof (induction L)
  case Nil
  show ?case by simp
next
  case (Cons x L)
  show ?case
  proof (cases "x \<in> set L")
    case True
    then have "count_list L x \<noteq> 0" by (simp add: count_list_0_iff)
    with True show ?thesis by auto
  next
    case False
    then show ?thesis using Cons.IH by auto
  qed
qed


lemma less_append_separator:
  fixes s t :: "'a::linorder list"
  assumes "\<forall>c\<in>set s. sep < c" "\<forall>c\<in>set t. sep < c" "s < t"
  shows "s @ sep # u < t @ sep # w"
  using assms
proof (induction s arbitrary: t)
  case Nil
  then obtain y t' where t: "t = y # t'" by (cases t) auto
  with Nil show ?case by simp
next
  case (Cons x s)
  then obtain y t' where t: "t = y # t'" by (cases t) auto
  show ?case
  proof (cases "x < y")
    case True
    then show ?thesis by (simp add: t)
  next
    case False
    with Cons.prems t have xy: "x = y" and st: "s < t'" by auto
    have "s @ sep # u < t' @ sep # w"
      using Cons.IH [of t'] Cons.prems st t by simp
    with xy show ?thesis by (simp add: t)
  qed
qed

lemma entryToString_order:
  assumes "alphabetic (fst x)" "alphabetic (fst y)" "entryToString x \<le> entryToString y"
  shows "fst x \<le> fst y"
proof (rule ccontr)
  assume "\<not> fst x \<le> fst y"
  then have "fst y < fst x" by simp
  then have "fst y @ CHR '','' # decimal (snd y) < fst x @ CHR '','' # decimal (snd x)"
    using assms(1,2) by (intro less_append_separator) (simp_all add: alphabetic_def)
  then have "entryToString y < entryToString x" by (simp add: entryToString_def)
  with assms(3) show False by simp
qed

lemma sorted_by_entryToString:
  assumes "\<forall>p\<in>set ps. alphabetic (fst p)"
  shows "sorted (map fst (sort_key entryToString ps))"
proof -
  have "sorted (map entryToString (sort_key entryToString ps))"
    by (rule sorted_sort_key)
  then have "sorted_wrt (\<lambda>x y. entryToString x \<le> entryToString y) (sort_key entryToString ps)"
    by (simp add: sorted_map)
  then have "sorted_wrt (\<lambda>x y. fst x \<le> fst y) (sort_key entryToString ps)"
  proof (rule sorted_wrt_mono_rel [rotated])
    fix x y
    assume "x \<in> set (sort_key entryToString ps)" "y \<in> set (sort_key entryToString ps)"
      "entryToString x \<le> entryToString y"
    with assms show "fst x \<le> fst y" by (simp add: entryToString_order)
  qed
  then show ?thesis by (simp add: sorted_map)
qed

lemma getRealType_perm_alphabetic: "alphabetic (getRealType_perm v)"
  by (cases v) (auto simp add: getRealType_perm_def getType_def alphabetic_def Let_def)

lemma countLoop_keys: "set (map fst (countLoop grt [] its)) = set (map grt its)"
proof -
  have "fst ` set (countLoop grt [] its) = dom (map_of (countLoop grt [] its))"
    by (simp add: dom_map_of_conv_image_fst)
  also have "\<dots> = set (map grt its)"
    by (auto simp add: dom_def countLoop_map_of)
  finally show ?thesis by simp
qed

lemma countLoop_counts:
  assumes "p \<in> set (countLoop grt [] its)"
  shows "snd p = count_list (map grt its) (fst p)"
proof -
  have "distinct (map fst (countLoop grt [] its))"
    by (rule countLoop_distinct) simp
  with assms have "map_of (countLoop grt [] its) (fst p) = Some (snd p)"
    by (simp add: map_of_eq_Some_iff)
  then show ?thesis
    by (simp add: countLoop_map_of split: if_splits)
qed

lemma frequencyCount_sorted:
  assumes "sorted (map fst (sort_key f (countLoop grt [] its)))"
  shows "frequencyCount_spec (map grt its) (sort_key f (countLoop grt [] its))"
proof -
  let ?cl = "countLoop grt [] its"
  have m: "mset (map fst (sort_key f ?cl)) = mset (map fst ?cl)" by simp
  have "distinct (map fst ?cl)" by (rule countLoop_distinct) simp
  with m have d: "distinct (map fst (sort_key f ?cl))"
    using mset_eq_imp_distinct_iff by blast
  have k: "set (map fst (sort_key f ?cl)) = set (map grt its)"
    using countLoop_keys [of grt its] by simp
  have c: "\<forall>p\<in>set (sort_key f ?cl). snd p = count_list (map grt its) (fst p)"
    using countLoop_counts [of _ grt its] by simp
  have "sum_mset (mset (map snd (sort_key f ?cl))) = sum_mset (mset (map snd ?cl))" by simp
  then have "sum_list (map snd (sort_key f ?cl)) = sum_list (map snd ?cl)"
    by (simp only: sum_mset_sum_list)
  then have s: "sum_list (map snd (sort_key f ?cl)) = length (map grt its)"
    by (simp add: countLoop_sum)
  from d k c assms s show ?thesis
    unfolding frequencyCount_spec_def by blast
qed

lemma countRealTypes_strict_spec:
  "countRealTypes_strict (VArray a xs)
     = Inr (sort_key fst (countLoop getRealType_strict [] (items xs))) \<and>
   frequencyCount_spec (map getRealType_strict (items xs))
     (sort_key fst (countLoop getRealType_strict [] (items xs)))"
  by (simp add: countRealTypes_strict_def sort_cmp_compareFn frequencyCount_sorted sorted_sort_key)

lemma countRealTypes_perm_spec:
  "countRealTypes_perm (VArray a xs)
     = sort_key entryToString (countLoop getRealType_perm [] (items xs)) \<and>
   frequencyCount_spec (map getRealType_perm (items xs))
     (sort_key entryToString (countLoop getRealType_perm [] (items xs)))"
proof -
  have "\<forall>p\<in>set (countLoop getRealType_perm [] (items xs)). alphabetic (fst p)"
  proof
    fix p assume "p \<in> set (countLoop getRealType_perm [] (items xs))"
    then have "fst p \<in> set (map fst (countLoop getRealType_perm [] (items xs)))" by simp
    then have "fst p \<in> set (map getRealType_perm (items xs))"
      by (simp only: countLoop_keys)
    then show "alphabetic (fst p)" by (auto simp: getRealType_perm_alphabetic)
  qed
  then have "sorted (map fst (sort_key entryToString (countLoop getRealType_perm [] (items xs))))"
    by (rule sorted_by_entryToString)
  then show ?thesis
    by (simp add: countRealTypes_perm_def sort_cmp_defaultCompare frequencyCount_sorted)
qed

lemma frequencyCount_all_one:
  assumes "frequencyCount_spec L ps"
  shows "distinct L \<longleftrightarrow> (\<forall>p\<in>set ps. snd p = 1)"
proof -
  from assms have k: "set (map fst ps) = set L"
    and c: "\<forall>p\<in>set ps. snd p = count_list L (fst p)"
    by (simp_all add: frequencyCount_spec_def)
  show ?thesis
  proof
    assume "distinct L"
    then have one: "\<forall>l\<in>set L. count_list L l = 1" by (simp add: distinct_count_one)
    show "\<forall>p\<in>set ps. snd p = 1"
    proof
      fix p assume p: "p \<in> set ps"
      then have "fst p \<in> set L" using k by auto
      with one c p show "snd p = 1" by simp
    qed
  next
    assume all: "\<forall>p\<in>set ps. snd p = 1"
    have "\<forall>l\<in>set L. count_list L l = 1"
    proof
      fix l assume "l \<in> set L"
      with k have "l \<in> fst ` set ps" by simp
      then obtain p where p: "p \<in> set ps" "l = fst p" by blast
      from p(1) all have "snd p = 1" by blast
      moreover from p(1) c have "snd p = count_list L (fst p)" by blast
      ultimately show "count_list L l = 1" using p(2) by simp
    qed
    then show "distinct L" by (simp add: distinct_count_one)
  qed
qed

subsection \<open>A fixture of the source's tests\<close>

text \<open>
  \<open>countRealTypes([{}, null, true, !null, !!null])\<close>, which the three files test
  against \<open>[['boolean', 3], ['null', 1], ['object', 1]]\<close>.
\<close>

lemma fixture_labels:
  "map getRealType_strict
     (items [Some (VObject 4 []), Some VNull, Some (VBoolean True), Some (VBoolean True), Some (VBoolean False)])
   = [''object'', ''null'', ''boolean'', ''boolean'', ''boolean'']"
  by (simp add: items_def slot_def getRealType_strict_def)

lemma fixture_count_strict:
  "countRealTypes_strict
     (VArray 0 [Some (VObject 4 []), Some VNull, Some (VBoolean True), Some (VBoolean True), Some (VBoolean False)])
   = Inr [(''boolean'', 3), (''null'', 1), (''object'', 1)]"
  by (simp add: countRealTypes_strict_def items_def slot_def getRealType_strict_def
      sort_cmp_def compareFn_def)

lemma fixture_count_perm:
  "countRealTypes_perm
     (VArray 0 [Some (VObject 4 []), Some VNull, Some (VBoolean True), Some (VBoolean True), Some (VBoolean False)])
   = [(''boolean'', 3), (''null'', 1), (''object'', 1)]"
  by (simp add: countRealTypes_perm_def items_def slot_def getRealType_perm_def getType_def
      sort_cmp_def defaultCompare_def entryToString_def decimal.simps digit_def)

subsection \<open>The frequency count\<close>

text \<open>
  Claim C1.  On an array, \<open>countRealTypes\<close> returns the frequency count of the
  refined labels of the elements: one pair for each distinct label that occurs, with
  the number of elements of that label, the pairs ascending by label in the order of
  strings, and the counts adding up to the length of the array.  This holds in each of
  the three files, with the file's own \<open>getRealType\<close>; \<open>index.js\<close> sorts the
  pairs as the strings \<open>label,count\<close>, which is the order of the labels because
  every label is alphabetic.  A hole of a sparse array counts as \<open>undefined\<close>.
\<close>

theorem countRealTypes_frequency:
  "(\<exists>ps. countRealTypes_strict (VArray a xs) = Inr ps \<and>
         frequencyCount_spec (map getRealType_strict (items xs)) ps) \<and>
   (\<exists>ps. countRealTypes_ts (VArray a xs) = Inr ps \<and>
         frequencyCount_spec (map getRealType_ts (items xs)) ps) \<and>
   frequencyCount_spec (map getRealType_perm (items xs)) (countRealTypes_perm (VArray a xs)) \<and>
   length (items xs) = length xs"
proof -
  have s: "\<exists>ps. countRealTypes_strict (VArray a xs) = Inr ps \<and>
         frequencyCount_spec (map getRealType_strict (items xs)) ps"
    using countRealTypes_strict_spec [of a xs] by blast
  have "countRealTypes_ts (VArray a xs) = countRealTypes_strict (VArray a xs)"
    by (simp add: countRealTypes_ts_def countRealTypes_strict_def getRealType_ts_strict_fun)
  with s have t: "\<exists>ps. countRealTypes_ts (VArray a xs) = Inr ps \<and>
         frequencyCount_spec (map getRealType_ts (items xs)) ps"
    by (simp add: getRealType_ts_strict_fun)
  have p: "frequencyCount_spec (map getRealType_perm (items xs)) (countRealTypes_perm (VArray a xs))"
    using countRealTypes_perm_spec [of a xs] by simp
  have l: "length (items xs) = length xs" by (simp add: items_def)
  from s t p l show ?thesis by blast
qed

theorem countRealTypes_frequency_witness:
  "countRealTypes_strict
     (VArray 0 [Some (VObject 4 []), Some VNull, Some (VBoolean True), Some (VBoolean True), Some (VBoolean False)])
     = Inr [(''boolean'', 3), (''null'', 1), (''object'', 1)] \<and>
   countRealTypes_perm
     (VArray 0 [Some (VObject 4 []), Some VNull, Some (VBoolean True), Some (VBoolean True), Some (VBoolean False)])
     = [(''boolean'', 3), (''null'', 1), (''object'', 1)] \<and>
   frequencyCount_spec [''object'', ''null'', ''boolean'', ''boolean'', ''boolean'']
     [(''boolean'', 3), (''null'', 1), (''object'', 1)]"
  using countRealTypes_frequency
    [of 0 "[Some (VObject 4 []), Some VNull, Some (VBoolean True), Some (VBoolean True), Some (VBoolean False)]"]
  by (simp only: fixture_count_strict fixture_count_perm fixture_labels sum.inject simp_thms ex_simps)

text \<open>
  Claim C8.  On an array, \<open>everyItemHasAUniqueRealType\<close> returns true if and only
  if every count in the pairs that \<open>countRealTypes\<close> returns is 1, in each of the
  three files.
\<close>

theorem unique_iff_counts_one:
  "(\<exists>ps. countRealTypes_strict (VArray a xs) = Inr ps \<and>
         everyItemHasAUniqueRealType_strict (VArray a xs) = Inr (\<forall>p\<in>set ps. snd p = 1)) \<and>
   (\<exists>ps. countRealTypes_ts (VArray a xs) = Inr ps \<and>
         everyItemHasAUniqueRealType_ts (VArray a xs) = Inr (\<forall>p\<in>set ps. snd p = 1)) \<and>
   everyItemHasAUniqueRealType_perm (VArray a xs)
     = (\<forall>p\<in>set (countRealTypes_perm (VArray a xs)). snd p = 1)"
proof -
  let ?cs = "sort_key fst (countLoop getRealType_strict [] (items xs))"
  have cs: "countRealTypes_strict (VArray a xs) = Inr ?cs"
    and fs: "frequencyCount_spec (map getRealType_strict (items xs)) ?cs"
    using countRealTypes_strict_spec [of a xs] by simp_all
  have us: "everyItemHasAUniqueRealType_strict (VArray a xs)
              = Inr (distinct (map getRealType_strict (items xs)))"
    by (simp add: everyItemHasAUniqueRealType_strict_def uniqueLoop_iff)
  have s: "everyItemHasAUniqueRealType_strict (VArray a xs) = Inr (\<forall>p\<in>set ?cs. snd p = 1)"
    using us frequencyCount_all_one [OF fs] by simp
  have ct: "countRealTypes_ts (VArray a xs) = Inr ?cs"
    using cs by (simp add: countRealTypes_ts_def countRealTypes_strict_def getRealType_ts_strict_fun)
  have t: "everyItemHasAUniqueRealType_ts (VArray a xs) = Inr (\<forall>p\<in>set ?cs. snd p = 1)"
    using s by (simp add: everyItemHasAUniqueRealType_ts_def everyItemHasAUniqueRealType_strict_def
        getRealType_ts_strict_fun)
  have fp: "frequencyCount_spec (map getRealType_perm (items xs)) (countRealTypes_perm (VArray a xs))"
    using countRealTypes_perm_spec [of a xs] by simp
  have up: "everyItemHasAUniqueRealType_perm (VArray a xs)
              = distinct (map getRealType_perm (items xs))"
    by (simp add: everyItemHasAUniqueRealType_perm_def uniqueLoop_iff)
  have p: "everyItemHasAUniqueRealType_perm (VArray a xs)
     = (\<forall>p\<in>set (countRealTypes_perm (VArray a xs)). snd p = 1)"
    using up frequencyCount_all_one [OF fp] by simp
  from cs s ct t p show ?thesis by blast
qed

theorem unique_iff_counts_one_witness:
  "everyItemHasAUniqueRealType_strict
     (VArray 0 [Some (VObject 4 []), Some VNull, Some (VBoolean True), Some (VBoolean True), Some (VBoolean False)])
     = Inr False \<and>
   everyItemHasAUniqueRealType_perm
     (VArray 0 [Some (VObject 4 []), Some VNull, Some (VBoolean True), Some (VBoolean True), Some (VBoolean False)])
     = False"
  using unique_iff_counts_one
    [of 0 "[Some (VObject 4 []), Some VNull, Some (VBoolean True), Some (VBoolean True), Some (VBoolean False)]"]
  by (simp add: fixture_count_strict fixture_count_perm)

section \<open>Properties of the test harness's equality\<close>

text \<open>
  Claim C10.  The claim is that \<open>areEqual(a, b)\<close> and \<open>areEqual(b, a)\<close> agree on
  all values.  In the TypeScript file and the throwing JavaScript file they do not:
  \<open>every\<close> skips the holes of its receiver, so a sparse array on the left equals
  any array of its length, and the same array on the right is compared as
  \<open>undefined\<close> elements.  Here \<open>areEqual(new Array(1), [1])\<close> is true and
  \<open>areEqual([1], new Array(1))\<close> is false.
\<close>

theorem areEqual_hole_asymmetric:
  "areEqual (VArray 0 [None]) (VArray 1 [Some (VNumber (Finite 1))]) = True \<and>
   areEqual (VArray 1 [Some (VNumber (Finite 1))]) (VArray 0 [None]) = False"
  by (simp add: strictEq_def readIndex_def slot_def)

text \<open>
  The indexed loop of \<open>index.js\<close> reads both arrays the same way and is symmetric
  on all values.
\<close>

lemma strictEq_sym: "strictEq a b = strictEq b a"
  by (cases a; cases b) (auto simp: strictEq_def numEq_def)


lemma isArray_slot: "isArray (slot x) \<Longrightarrow> \<exists>i as. x = Some (VArray i as)"
  by (cases x; cases "slot x") (auto simp: slot_def)

lemma compareLoop_head_nonarray:
  "\<not> (isArray (slot x) \<and> isArray v) \<Longrightarrow>
     (case x of
        Some (VArray i as) \<Rightarrow> (if isArray v then F as else strictEq (VArray i as) v)
      | _ \<Rightarrow> strictEq (slot x) v)
     = strictEq (slot x) v"
  by (auto simp: slot_def split: option.splits jsval.splits)

lemma compareArrays_sym:
  "compareArrays a b = compareArrays b a"
  "length xs = length ys \<Longrightarrow> compareLoop xs ys = compareLoop ys xs"
proof (induction a b and xs ys rule: compareArrays_compareLoop.induct)
  case (1 a b)
  then show ?case by auto
next
  case (2 b)
  then show ?case by simp
next
  case (3 x xs b)
  from "3.prems" obtain y ys where b: "b = y # ys" and len: "length xs = length ys"
    by (cases b) auto
  have r0: "readIndex (y # ys) 0 = slot y" "readIndex (x # xs) 0 = slot x"
    by (simp_all add: readIndex_def)
  have d1: "drop 1 (y # ys) = ys" "drop 1 (x # xs) = xs"
    by simp_all
  have tl: "compareLoop xs ys = compareLoop ys xs"
    using "3.IH"(2) len by (simp add: b)
  have hd: "(case x of
        Some (VArray i as) \<Rightarrow>
          (if isArray (slot y) then compareArrays as (elements (slot y))
           else strictEq (VArray i as) (slot y))
      | _ \<Rightarrow> strictEq (slot x) (slot y))
    = (case y of
        Some (VArray j bs) \<Rightarrow>
          (if isArray (slot x) then compareArrays bs (elements (slot x))
           else strictEq (VArray j bs) (slot x))
      | _ \<Rightarrow> strictEq (slot y) (slot x))"
  proof (cases "isArray (slot x) \<and> isArray (slot y)")
    case True
    then obtain i as j bs where x: "x = Some (VArray i as)" and y: "y = Some (VArray j bs)"
      using isArray_slot by blast
    have ia: "isArray (readIndex b 0)"
      by (simp add: b y readIndex_def slot_def)
    have el: "elements (readIndex b 0) = bs"
      by (simp add: b y readIndex_def slot_def)
    have "compareArrays as bs = compareArrays bs as"
      using "3.IH"(1) [OF x refl ia] unfolding el .
    then show ?thesis by (simp add: x y slot_def)
  next
    case False
    then have False': "\<not> (isArray (slot y) \<and> isArray (slot x))" by blast
    have L: "(case x of
        Some (VArray i as) \<Rightarrow>
          (if isArray (slot y) then compareArrays as (elements (slot y))
           else strictEq (VArray i as) (slot y))
      | _ \<Rightarrow> strictEq (slot x) (slot y)) = strictEq (slot x) (slot y)"
      using False by (rule compareLoop_head_nonarray)
    have R: "(case y of
        Some (VArray j bs) \<Rightarrow>
          (if isArray (slot x) then compareArrays bs (elements (slot x))
           else strictEq (VArray j bs) (slot x))
      | _ \<Rightarrow> strictEq (slot y) (slot x)) = strictEq (slot y) (slot x)"
      using False' by (rule compareLoop_head_nonarray)
    show ?thesis
      unfolding L R by (rule strictEq_sym)
  qed
  show ?case
    unfolding b compareLoop.simps r0 d1 using hd tl by (simp only:)
qed

lemma areEqual_perm_sym: "areEqual_perm a b = areEqual_perm b a"
  using compareArrays_sym(1) strictEq_sym by (auto simp add: areEqual_perm_def)

text \<open>
  \<open>areEqual\<close> of the TypeScript file and of the throwing JavaScript file is
  symmetric on dense values, where \<open>every\<close> visits each index.
\<close>

lemma areEqual_unfold:
  "areEqual a b =
     (strictEq a b \<or> (isArray a \<and> isArray b \<and> length (elements a) = length (elements b)
        \<and> every_areEqual (elements a) (elements b)))"
  by (cases a) auto

lemma areEqual_dense_sym:
  "dense a \<Longrightarrow> dense b \<Longrightarrow> areEqual a b = areEqual b a"
  "length xs = length ys \<Longrightarrow> dense_slots xs \<Longrightarrow> dense_slots ys \<Longrightarrow>
     every_areEqual xs ys = every_areEqual ys xs"
proof (induction a b and xs ys rule: areEqual_every_areEqual.induct)
  case (1 a b)
  show ?case
  proof (cases "\<not> strictEq a b \<and> isArray a \<and> isArray b \<and> length (elements a) = length (elements b)")
    case True
    then obtain i as j bs where a: "a = VArray i as" and b: "b = VArray j bs"
      by (cases a; cases b) auto
    from True have len: "length as = length bs" by (simp add: a b)
    from "1.prems" have d: "dense_slots as" "dense_slots bs" by (simp_all add: a b)
    have c: "isArray b \<and> length as = length (elements b)" using len by (simp add: b)
    have "every_areEqual as (elements b) = every_areEqual (elements b) as"
      using "1.IH" [of i as] True a c d by (simp add: b)
    then show ?thesis
      unfolding areEqual_unfold [of a b] areEqual_unfold [of b a]
      by (simp add: a b len strictEq_sym [of "VArray j bs"])
  next
    case False
    then show ?thesis
      unfolding areEqual_unfold [of a b] areEqual_unfold [of b a]
      using strictEq_sym [of a b] by auto
  qed
next
  case (2 bs)
  then show ?case by simp
next
  case (3 x xs bs)
  from "3.prems" obtain y ys where bs: "bs = y # ys" and len: "length xs = length ys"
    by (cases bs) auto
  from "3.prems" obtain v where x: "x = Some v" and dv: "dense v" and dxs: "dense_slots xs"
    by (cases x) auto
  from "3.prems" obtain w where y: "y = Some w" and dw: "dense w" and dys: "dense_slots ys"
    by (cases y) (auto simp: bs)
  have r: "readIndex bs 0 = w" by (simp add: bs y readIndex_def slot_def)
  have hd: "areEqual v w = areEqual w v"
    using "3.IH"(1) [OF x] dv dw unfolding r by simp
  have tl: "every_areEqual xs ys = every_areEqual ys xs"
    using "3.IH"(2) len dxs dys by (simp add: bs)
  have L: "every_areEqual (x # xs) bs = (areEqual v w \<and> every_areEqual xs ys)"
    by (simp add: x bs y readIndex_def slot_def del: areEqual.simps)
  have R: "every_areEqual bs (x # xs) = (areEqual w v \<and> every_areEqual ys xs)"
    by (simp add: x bs y readIndex_def slot_def del: areEqual.simps)
  show ?case unfolding L R using hd tl by simp
qed

end
